theory Spec2Isabelle
  imports Complex_Main
begin

section \<open>Data model of convex\_hull\_cluster.py\<close>

text \<open>
  A coordinate is a tuple of floats, a point is the dictionary
  \<open>{'coordinate': (float, ...), 'label': int}\<close>, a dataset is a list of points, and a
  face or an edge is a tuple of coordinates. Floats are read as reals; the one float that
  is not a real and that the code produces by itself is \<open>-inf\<close>, the log-magnitude
  \<open>numpy.linalg.slogdet\<close> returns for a singular matrix.
\<close>

type_synonym coord = "real list"

type_synonym face = "coord list"

record point =
  coordinate :: coord
  label :: int

type_synonym dataset = "point list"

datatype py_error = IndexError | TypeError | ValueError | LinAlgError

datatype logdet = MinusInf | LogVal real

text \<open>Python's \<open>a < b\<close> on these floats.\<close>

fun logdet_less :: "logdet \<Rightarrow> logdet \<Rightarrow> bool" where
  "logdet_less MinusInf MinusInf = False"
| "logdet_less MinusInf (LogVal y) = True"
| "logdet_less (LogVal x) MinusInf = False"
| "logdet_less (LogVal x) (LogVal y) = (x < y)"

text \<open>Python's truth value of a float: only zero is false (\<open>-inf\<close> is true).\<close>

fun float_truthy :: "logdet \<Rightarrow> bool" where
  "float_truthy MinusInf = True"
| "float_truthy (LogVal x) = (x \<noteq> 0)"

text \<open>
  \<open>numpy.isclose([a], [0])\<close> with the default tolerances \<open>rtol = 1e-05\<close> and
  \<open>atol = 1e-08\<close>: \<open>|a - b| <= atol + rtol * |b|\<close> for finite values, equality
  for infinite ones.
\<close>

fun isclose_zero :: "logdet \<Rightarrow> bool" where
  "isclose_zero MinusInf = False"
| "isclose_zero (LogVal a) = (\<bar>a - 0\<bar> \<le> 1 / 10 ^ 8 + (1 / 10 ^ 5) * \<bar>0\<bar>)"

section \<open>The numpy layer\<close>

text \<open>
  A numpy matrix with its shape. \<open>numpy.matrix([])\<close> has shape \<open>(1, 0)\<close>, so the
  shape cannot be read off the list of rows and is stored.
\<close>

record matrix =
  nrows :: nat
  ncols :: nat
  entries :: "real list list"

text \<open>
  \<open>numpy.array(x) - reference\<close> on one-dimensional arrays: componentwise, an array of
  length one is broadcast, any other mismatch of lengths raises ValueError.
\<close>

definition np_sub :: "coord \<Rightarrow> coord \<Rightarrow> py_error + coord" where
  "np_sub x y =
     (if length x = length y then Inr (map2 (\<lambda>a b. a - b) x y)
      else if length x = 1 then Inr (map (\<lambda>b. hd x - b) y)
      else if length y = 1 then Inr (map (\<lambda>a. a - hd y) x)
      else Inl ValueError)"

text \<open>The comprehension \<open>[numpy.array(x) - reference for x in vertices[1:]]\<close>.\<close>

fun row_diffs :: "coord \<Rightarrow> coord list \<Rightarrow> py_error + coord list" where
  "row_diffs reference [] = Inr []"
| "row_diffs reference (x # xs) =
     (case np_sub x reference of
        Inl e \<Rightarrow> Inl e
      | Inr r \<Rightarrow> (case row_diffs reference xs of
                    Inl e \<Rightarrow> Inl e
                  | Inr rs \<Rightarrow> Inr (r # rs)))"

text \<open>\<open>numpy.matrix\<close> of a list of rows; rows of different lengths are refused.\<close>

fun np_matrix :: "coord list \<Rightarrow> py_error + matrix" where
  "np_matrix [] = Inr \<lparr>nrows = 1, ncols = 0, entries = [[]]\<rparr>"
| "np_matrix (r # rs) =
     (if list_all (\<lambda>x. length x = length r) rs
      then Inr \<lparr>nrows = Suc (length rs), ncols = length r, entries = r # rs\<rparr>
      else Inl ValueError)"

definition np_transpose :: "matrix \<Rightarrow> matrix" where
  "np_transpose m =
     \<lparr>nrows = ncols m, ncols = nrows m,
      entries = map (\<lambda>j. map (\<lambda>r. r ! j) (entries m)) [0..<ncols m]\<rparr>"

text \<open>The matrix product \<open>a * b\<close> of two \<open>numpy.matrix\<close> values.\<close>

definition np_matmul :: "matrix \<Rightarrow> matrix \<Rightarrow> py_error + matrix" where
  "np_matmul a b =
     (if ncols a \<noteq> nrows b then Inl ValueError
      else Inr \<lparr>nrows = nrows a, ncols = ncols b,
                entries = map (\<lambda>r. map (\<lambda>j. sum_list (map2 (\<lambda>x br. x * br ! j) r (entries b)))
                                        [0..<ncols b])
                              (entries a)\<rparr>)"

text \<open>
  \<open>numpy.linalg.slogdet\<close> is LAPACK code outside the repository. What the model fixes
  is its interface: a matrix that is not square raises LinAlgError, a square one gives
  the pair (sign, log-magnitude). The numbers themselves are a parameter \<open>K\<close> of every
  function below, so that no theorem depends on how the determinant is rounded.
\<close>

type_synonym kernel = "real list list \<Rightarrow> real \<times> logdet"

definition slogdet :: "kernel \<Rightarrow> matrix \<Rightarrow> py_error + real \<times> logdet" where
  "slogdet K m = (if nrows m \<noteq> ncols m then Inl LinAlgError else Inr (K (entries m)))"

text \<open>
  The kernel of exact arithmetic, used to run the model on concrete inputs: the
  determinant by expansion along the first row, its sign, and the logarithm of its
  magnitude (\<open>-inf\<close> when it is zero). The concrete runs below use matrices of small
  integers, on which the floating-point factorisation computes the same values.
\<close>

definition del_col :: "nat \<Rightarrow> real list \<Rightarrow> real list" where
  "del_col j r = take j r @ drop (Suc j) r"

function det :: "real list list \<Rightarrow> real" where
  "det [] = 1"
| "det (r # rs) =
     sum_list (map (\<lambda>j. (- 1) ^ j * r ! j * det (map (del_col j) rs)) [0..<length r])"
  by pat_completeness auto
termination
  by (relation "measure length") auto

definition exact_kernel :: kernel where
  "exact_kernel m =
     (sgn (det m), if det m = 0 then MinusInf else LogVal (ln \<bar>det m\<bar>))"

section \<open>Geometry primitives\<close>

definition signed_volume :: "kernel \<Rightarrow> coord list \<Rightarrow> py_error + real \<times> logdet" where
  "signed_volume K vertices =
     (case vertices of
        [] \<Rightarrow> Inl IndexError
      | reference # rest \<Rightarrow>
          (case row_diffs reference rest of
             Inl e \<Rightarrow> Inl e
           | Inr ds \<Rightarrow> (case np_matrix ds of
                          Inl e \<Rightarrow> Inl e
                        | Inr m \<Rightarrow> slogdet K m)))"

definition squared_area :: "kernel \<Rightarrow> coord list \<Rightarrow> py_error + logdet" where
  "squared_area K vertices =
     (case vertices of
        [] \<Rightarrow> Inl IndexError
      | reference # rest \<Rightarrow>
          (case row_diffs reference rest of
             Inl e \<Rightarrow> Inl e
           | Inr ds \<Rightarrow>
               (case np_matrix ds of
                  Inl e \<Rightarrow> Inl e
                | Inr m \<Rightarrow>
                    (case np_matmul (np_transpose m) m of
                       Inl e \<Rightarrow> Inl e
                     | Inr g \<Rightarrow> (case slogdet K g of
                                    Inl e \<Rightarrow> Inl e
                                  | Inr (sign, logvolume) \<Rightarrow> Inr logvolume)))))"

definition form_face :: "coord list \<Rightarrow> coord \<Rightarrow> face" where
  "form_face edge pivot = edge @ [pivot]"

section \<open>Facet and hull predicates\<close>

text \<open>
  The four keyword arguments of \<open>check_inside\<close> default to \<open>None\<close>, so each is an
  option. \<open>edge or face[:-1]\<close> replaces an edge that is \<open>None\<close> or empty, and
  \<open>area or squared_area(face)\<close> replaces an area that is \<open>None\<close> or zero; the right
  operand is evaluated only then.
\<close>

definition check_inside ::
  "kernel \<Rightarrow> face option \<Rightarrow> coord option \<Rightarrow> coord list option \<Rightarrow> logdet option
     \<Rightarrow> py_error + bool \<times> face \<times> logdet" where
  "check_inside K face pivot edge area =
     (case (face, pivot) of
        (Some f, Some p) \<Rightarrow>
          (let edge1 = (case edge of
                          None \<Rightarrow> butlast f
                        | Some e \<Rightarrow> if e \<noteq> [] then e else butlast f)
           in case (case area of
                      None \<Rightarrow> squared_area K f
                    | Some a \<Rightarrow> if float_truthy a then Inr a else squared_area K f) of
                Inl e \<Rightarrow> Inl e
              | Inr area1 \<Rightarrow>
                  (case signed_volume K (form_face f p) of
                     Inl e \<Rightarrow> Inl e
                   | Inr (sign, logvolume) \<Rightarrow>
                       (let face2 = form_face edge1 p
                        in case squared_area K face2 of
                             Inl e \<Rightarrow> Inl e
                           | Inr area2 \<Rightarrow>
                               if (isclose_zero logvolume \<and> logdet_less area1 area2) \<or> sign < 0
                               then Inr (False, face2, area2)
                               else Inr (True, face2, area2))))
      | _ \<Rightarrow> Inl ValueError)"

text \<open>
  Python's truth value of the tuple \<open>check_inside\<close> returns: a tuple of three
  components is not empty, hence true, whatever its first component is.
\<close>

definition tuple_truthy :: "bool \<times> face \<times> logdet \<Rightarrow> bool" where
  "tuple_truthy t = True"

fun check_inside_hull :: "kernel \<Rightarrow> face list \<Rightarrow> coord \<Rightarrow> py_error + bool" where
  "check_inside_hull K [] pivot = Inr True"
| "check_inside_hull K (face # faces) pivot =
     (case check_inside K (Some face) (Some pivot) None None of
        Inl e \<Rightarrow> Inl e
      | Inr r \<Rightarrow> if \<not> tuple_truthy r then Inr False else check_inside_hull K faces pivot)"

section \<open>The pivot selector\<close>

text \<open>
  \<open>pivot_on_edge\<close> is a generator. Each candidate it yields is the list
  \<open>[pivot, label, None]\<close>; the value sent back is compared with the strings
  \<open>'homogeneous'\<close> and \<open>'opposite inside'\<close>; its last yield is the pair
  \<open>(homo['pivot'], found)\<close>. The model runs the generator against the list of the
  values the driver sends, in order, and returns the candidates yielded and how the run
  ended: with an exception, suspended at a candidate with no reply left, or at the last
  yield.
\<close>

record cand =
  pivot_of :: coord
  face_of :: face
  area_of :: logdet

datatype yielded = Candidate coord int

datatype outcome = Raised py_error | Awaiting | Finished coord bool

text \<open>\<open>while index < length and dataset[index]['label'] != label: index += 1\<close>\<close>

function skip_other :: "dataset \<Rightarrow> int \<Rightarrow> nat \<Rightarrow> nat" where
  "skip_other ds lbl index =
     (if index < length ds \<and> label (ds ! index) \<noteq> lbl
      then skip_other ds lbl (Suc index) else index)"
  by pat_completeness auto
termination
  by (relation "measure (\<lambda>(ds, lbl, index). length ds - index)") auto

declare skip_other.simps [simp del]

text \<open>\<open>while index < length and dataset[index]['label'] == label: index += 1\<close>\<close>

function skip_same :: "dataset \<Rightarrow> int \<Rightarrow> nat \<Rightarrow> nat" where
  "skip_same ds lbl index =
     (if index < length ds \<and> label (ds ! index) = lbl
      then skip_same ds lbl (Suc index) else index)"
  by pat_completeness auto
termination
  by (relation "measure (\<lambda>(ds, lbl, index). length ds - index)") auto

declare skip_same.simps [simp del]

text \<open>
  The loop \<open>for point in dataset\<close> of the generator, on the points still to scan, with
  the incumbents \<open>homo\<close> and \<open>opp\<close>, the flag \<open>found\<close> and the replies not yet
  consumed.
\<close>

fun scan ::
  "kernel \<Rightarrow> coord list \<Rightarrow> int \<Rightarrow> dataset \<Rightarrow> cand \<Rightarrow> cand \<Rightarrow> bool \<Rightarrow> string list
     \<Rightarrow> yielded list \<times> outcome" where
  "scan K edge lbl [] homo opp found verdicts = ([], Finished (pivot_of homo) found)"
| "scan K edge lbl (p # ps) homo opp found verdicts =
     (case check_inside K (Some (face_of homo)) (Some (coordinate p)) (Some edge)
             (Some (area_of homo)) of
        Inl e \<Rightarrow> ([], Raised e)
      | Inr (inside, face2, area2) \<Rightarrow>
          (let current = \<lparr>pivot_of = coordinate p, face_of = face2, area_of = area2\<rparr>;
               updated = (if label p = lbl then \<not> inside else inside)
           in if updated then
                (case verdicts of
                   [] \<Rightarrow> ([Candidate (coordinate p) lbl], Awaiting)
                 | check # rest \<Rightarrow>
                     (let r = (if check = ''homogeneous''
                               then scan K edge lbl ps current opp True rest
                               else if check = ''opposite inside''
                               then scan K edge lbl ps homo current found rest
                               else scan K edge lbl ps homo opp found rest)
                      in (Candidate (coordinate p) lbl # fst r, snd r)))
              else scan K edge lbl ps homo opp found verdicts))"

definition pivot_on_edge ::
  "kernel \<Rightarrow> dataset \<Rightarrow> coord list \<Rightarrow> int \<Rightarrow> string list \<Rightarrow> yielded list \<times> outcome" where
  "pivot_on_edge K ds edge lbl verdicts =
     (let index = skip_other ds lbl 0
      in if \<not> index < length ds then ([], Raised IndexError)
         else
           (let homo_pivot = coordinate (ds ! index);
                homo_face = form_face edge homo_pivot
            in case squared_area K homo_face of
                 Inl e \<Rightarrow> ([], Raised e)
               | Inr homo_area \<Rightarrow>
                   (let index2 = skip_same ds lbl index
                    in if \<not> index2 < length ds then ([], Raised IndexError)
                       else
                         (let opp_pivot = coordinate (ds ! index2);
                              opp_face = form_face edge opp_pivot
                          in case squared_area K opp_face of
                               Inl e \<Rightarrow> ([], Raised e)
                             | Inr opp_area \<Rightarrow>
                                 (case verdicts of
                                    [] \<Rightarrow> ([Candidate homo_pivot lbl], Awaiting)
                                  | check # rest \<Rightarrow>
                                      (let r = scan K edge lbl ds
                                                 \<lparr>pivot_of = homo_pivot, face_of = homo_face,
                                                  area_of = homo_area\<rparr>
                                                 \<lparr>pivot_of = opp_pivot, face_of = opp_face,
                                                  area_of = opp_area\<rparr>
                                                 (check = ''homogeneous'') rest
                                       in (Candidate homo_pivot lbl # fst r, snd r)))))))"

section \<open>Seed selection\<close>

text \<open>
  Python's \<open>xs[i]\<close>, \<open>xs[i] = v\<close> and \<open>xs[lo:hi]\<close> on a list: a negative index
  counts from the end, an index out of range raises IndexError, a slice is clipped.
\<close>

definition py_position :: "nat \<Rightarrow> int \<Rightarrow> nat option" where
  "py_position len i =
     (if - int len \<le> i \<and> i < 0 then Some (nat (int len + i))
      else if 0 \<le> i \<and> i < int len then Some (nat i)
      else None)"

definition py_index :: "'a list \<Rightarrow> int \<Rightarrow> py_error + 'a" where
  "py_index xs i =
     (case py_position (length xs) i of
        None \<Rightarrow> Inl IndexError
      | Some k \<Rightarrow> Inr (xs ! k))"

definition py_store :: "'a list \<Rightarrow> int \<Rightarrow> 'a \<Rightarrow> py_error + 'a list" where
  "py_store xs i v =
     (case py_position (length xs) i of
        None \<Rightarrow> Inl IndexError
      | Some k \<Rightarrow> Inr (xs[k := v]))"

definition py_slice :: "'a list \<Rightarrow> int \<Rightarrow> int \<Rightarrow> 'a list" where
  "py_slice xs lo hi =
     (let n = int (length xs);
          lo1 = (if lo < 0 then max (lo + n) 0 else min lo n);
          hi1 = (if hi < 0 then max (hi + n) 0 else min hi n)
      in take (nat (hi1 - lo1)) (drop (nat lo1) xs))"

text \<open>\<open>comp = (lambda x, y: x < y)\<close> on two coordinates: the order of tuples.\<close>

fun tuple_less :: "coord \<Rightarrow> coord \<Rightarrow> bool" where
  "tuple_less [] [] = False"
| "tuple_less [] (y # ys) = True"
| "tuple_less (x # xs) [] = False"
| "tuple_less (x # xs) (y # ys) = (if x = y then tuple_less xs ys else x < y)"

text \<open>
  The loop \<open>for i in range(lhs, rhs)\<close> of \<open>qsort_partition\<close>, on the indices still
  to visit. The swap reads \<open>data[index]\<close> and \<open>data[i]\<close>, then stores them.
\<close>

fun partition_loop :: "coord list \<Rightarrow> coord \<Rightarrow> int list \<Rightarrow> int \<Rightarrow> py_error + coord list \<times> int" where
  "partition_loop data pivot [] index = Inr (data, index)"
| "partition_loop data pivot (i # rest) index =
     (case py_index data i of
        Inl e \<Rightarrow> Inl e
      | Inr x \<Rightarrow>
          if tuple_less x pivot then
            (case py_index data index of
               Inl e \<Rightarrow> Inl e
             | Inr y \<Rightarrow>
                 (case py_store data i y of
                    Inl e \<Rightarrow> Inl e
                  | Inr data1 \<Rightarrow>
                      (case py_store data1 index x of
                         Inl e \<Rightarrow> Inl e
                       | Inr data2 \<Rightarrow> partition_loop data2 pivot rest (index + 1))))
          else partition_loop data pivot rest index)"

text \<open>
  One pass of \<open>while position != target\<close>. Its last statement is
  \<open>data[pivot], data[index] = data[index], data[pivot]\<close>, where \<open>pivot\<close> is the
  coordinate \<open>data[rhs]\<close>, a tuple: after \<open>data[index]\<close> is read, \<open>data[pivot]\<close>
  raises TypeError (a list index must be an integer). The pass therefore never reaches
  \<open>position = index\<close>; the result type still carries the state a completed pass would
  hand to the next one: data, lhs, rhs and position.
\<close>

definition qsort_pass ::
  "coord list \<Rightarrow> int \<Rightarrow> int \<Rightarrow> int \<Rightarrow> int \<Rightarrow> py_error + coord list \<times> int \<times> int \<times> int" where
  "qsort_pass data target lhs rhs position =
     (let lhs1 = (if position < target then position + 1 else lhs);
          rhs1 = (if position < target then rhs
                  else if position > target then position - 1 else rhs)
      in case py_index data rhs1 of
           Inl e \<Rightarrow> Inl e
         | Inr pivot \<Rightarrow>
             (case partition_loop data pivot [lhs1..rhs1 - 1] lhs1 of
                Inl e \<Rightarrow> Inl e
              | Inr (data1, index) \<Rightarrow>
                  (case py_index data1 index of
                     Inl e \<Rightarrow> Inl e
                   | Inr x \<Rightarrow> Inl TypeError)))"

partial_function (option) qsort_loop ::
  "coord list \<Rightarrow> int \<Rightarrow> int \<Rightarrow> int \<Rightarrow> int \<Rightarrow> (py_error + coord list \<times> int) option" where
  "qsort_loop data target lhs rhs position =
     (if position \<noteq> target then
        (case qsort_pass data target lhs rhs position of
           Inl e \<Rightarrow> Some (Inl e)
         | Inr (data1, lhs1, rhs1, position1) \<Rightarrow> qsort_loop data1 target lhs1 rhs1 position1)
      else Some (Inr (data, position)))"

text \<open>
  \<open>qsort_partition(data, target, lhs, rhs)\<close>. \<open>lhs or 0\<close> and \<open>rhs or len(data)\<close>
  replace \<open>None\<close> and zero. The value returned is \<open>(label, data[:position].sort())\<close>,
  and \<open>list.sort()\<close> returns \<open>None\<close>: the second component is \<open>None\<close> whatever
  the list holds.
\<close>

definition qsort_partition ::
  "dataset \<Rightarrow> int \<Rightarrow> int option \<Rightarrow> int option \<Rightarrow> (py_error + int \<times> coord list option) option" where
  "qsort_partition data target lhs rhs =
     (let lhs0 = (case lhs of None \<Rightarrow> 0 | Some l \<Rightarrow> if l \<noteq> 0 then l else 0);
          rhs0 = (case rhs of
                    None \<Rightarrow> int (length data)
                  | Some r \<Rightarrow> if r \<noteq> 0 then r else int (length data)) - 1
      in case data of
           [] \<Rightarrow> Some (Inl IndexError)
         | first # others \<Rightarrow>
             (let lbl = label first;
                  data1 = map coordinate
                            (filter (\<lambda>element. label element = lbl) (py_slice data lhs0 rhs0))
              in case qsort_loop data1 target lhs0 rhs0 (- 1) of
                   None \<Rightarrow> None
                 | Some (Inl e) \<Rightarrow> Some (Inl e)
                 | Some (Inr (data2, position)) \<Rightarrow> Some (Inr (lbl, None))))"

text \<open>
  \<open>initialize_hull\<close> calls \<open>qsort_partition(dataset, target=dimension - 1)\<close> and
  returns \<open>(label, tuple(edge))\<close>; \<open>tuple(None)\<close> raises TypeError.
\<close>

definition initialize_hull :: "dataset \<Rightarrow> (py_error + int \<times> coord list) option" where
  "initialize_hull ds =
     (case ds of
        [] \<Rightarrow> Some (Inl IndexError)
      | first # others \<Rightarrow>
          (let dimension = int (length (coordinate first))
           in case qsort_partition ds (dimension - 1) (Some 0) None of
                None \<Rightarrow> None
              | Some (Inl e) \<Rightarrow> Some (Inl e)
              | Some (Inr (lbl, edge)) \<Rightarrow>
                  (case edge of
                     None \<Rightarrow> Some (Inl TypeError)
                   | Some e \<Rightarrow> Some (Inr (lbl, e)))))"

section \<open>The gift-wrapping driver and the clustering loop\<close>

text \<open>\<open>queuing_face\<close> puts, for each position of the face, the face without it.\<close>

definition queuing_face :: "face \<Rightarrow> coord list list \<Rightarrow> coord list list" where
  "queuing_face face queue =
     queue @ map (\<lambda>i. map snd (filter (\<lambda>(j, element). i \<noteq> j) (enumerate 0 face)))
                 [0..<length face]"

text \<open>\<open>used_pivots\<close> is a dictionary from coordinates to \<open>True\<close>.\<close>

fun check_homogeneity ::
  "kernel \<Rightarrow> dataset \<Rightarrow> face list \<Rightarrow> int \<Rightarrow> (coord \<rightharpoonup> bool) \<Rightarrow> py_error + bool" where
  "check_homogeneity K [] faces lbl used_pivots = Inr True"
| "check_homogeneity K (p # ps) faces lbl used_pivots =
     (if used_pivots (coordinate p) \<noteq> None \<or> label p = lbl
      then check_homogeneity K ps faces lbl used_pivots
      else (case check_inside_hull K faces (coordinate p) of
              Inl e \<Rightarrow> Inl e
            | Inr inside \<Rightarrow>
                if inside then Inr False
                else check_homogeneity K ps faces lbl used_pivots))"

record wrapped =
  wr_faces :: "face list"
  wr_vertices :: "coord \<rightharpoonup> bool"

text \<open>
  The guard of the driver's loop is \<open>_queue.not_empty\<close>. That attribute of
  \<open>queue.Queue\<close> is a \<open>threading.Condition\<close> object, not a test: its truth value is
  true whatever the queue holds.
\<close>

definition not_empty_truthy :: "coord list list \<Rightarrow> bool" where
  "not_empty_truthy queue = True"

text \<open>
  The loop \<open>while _queue.not_empty\<close>, entered with the queue, the hull and the used
  pivots. \<open>_queue.get()\<close> on an empty queue blocks, and nothing else can fill the queue:
  the call does not return (\<open>None\<close>). On a queue that holds an edge the next statement
  is \<open>processed.get(edge, d=False)\<close>; \<open>dict.get\<close> takes no keyword argument, so it
  raises TypeError and none of the statements after it in the loop body is reached.
  The branch after the loop is \<open>return {"faces": hull, "vertices": used_pivots}\<close>.
\<close>

definition gift_wrapping_loop ::
  "coord list list \<Rightarrow> face list \<Rightarrow> (coord \<rightharpoonup> bool) \<Rightarrow> (py_error + wrapped) option" where
  "gift_wrapping_loop queue faces used_pivots =
     (if not_empty_truthy queue then
        (case queue of
           [] \<Rightarrow> None
         | edge # rest \<Rightarrow> Some (Inl TypeError))
      else Some (Inr \<lparr>wr_faces = faces, wr_vertices = used_pivots\<rparr>))"

definition gift_wrapping :: "dataset \<Rightarrow> (py_error + wrapped) option" where
  "gift_wrapping ds =
     (case initialize_hull ds of
        None \<Rightarrow> None
      | Some (Inl e) \<Rightarrow> Some (Inl e)
      | Some (Inr (lbl, face)) \<Rightarrow>
          gift_wrapping_loop (queuing_face face []) [face]
            (map_of (zip face (replicate (length face) True))))"

text \<open>\<open>numpy.e ** logvolume\<close>\<close>

fun exp_logdet :: "logdet \<Rightarrow> real" where
  "exp_logdet MinusInf = 0"
| "exp_logdet (LogVal x) = exp x"

fun volume_loop :: "kernel \<Rightarrow> coord \<Rightarrow> face list \<Rightarrow> real \<Rightarrow> py_error + real" where
  "volume_loop K origin [] volume = Inr volume"
| "volume_loop K origin (face # faces) volume =
     (case signed_volume K (form_face face origin) of
        Inl e \<Rightarrow> Inl e
      | Inr (sign, logvolume) \<Rightarrow> volume_loop K origin faces (volume + exp_logdet logvolume))"

definition calculate_volume :: "kernel \<Rightarrow> face list \<Rightarrow> py_error + real" where
  "calculate_volume K faces =
     (case faces of
        [] \<Rightarrow> Inl IndexError
      | [] # others \<Rightarrow> Inl IndexError
      | (origin # vs) # others \<Rightarrow> volume_loop K origin faces 0)"

record cluster =
  cl_vertices :: "coord list"
  cl_points :: "coord list"
  cl_size :: nat
  cl_volume :: real

text \<open>
  The loop \<open>for point in dataset\<close> inside \<open>clustering\<close>: it returns the lists
  \<open>vertices\<close>, \<open>points\<close> and \<open>_dataset\<close>. A point that is not a used vertex is
  appended to \<open>_dataset\<close> first, and to \<open>points\<close> as well when
  \<open>check_inside_hull\<close> is true.
\<close>

fun partition_dataset ::
  "kernel \<Rightarrow> face list \<Rightarrow> (coord \<rightharpoonup> bool) \<Rightarrow> dataset
     \<Rightarrow> py_error + coord list \<times> coord list \<times> dataset" where
  "partition_dataset K faces used_vertices [] = Inr ([], [], [])"
| "partition_dataset K faces used_vertices (p # ps) =
     (let vertex = coordinate p
      in if used_vertices vertex \<noteq> None then
           (case partition_dataset K faces used_vertices ps of
              Inl e \<Rightarrow> Inl e
            | Inr (vertices, points, ds1) \<Rightarrow> Inr (vertex # vertices, points, ds1))
         else
           (case check_inside_hull K faces vertex of
              Inl e \<Rightarrow> Inl e
            | Inr inside \<Rightarrow>
                (case partition_dataset K faces used_vertices ps of
                   Inl e \<Rightarrow> Inl e
                 | Inr (vertices, points, ds1) \<Rightarrow>
                     Inr (vertices, if inside then vertex # points else points, p # ds1))))"

partial_function (option) clustering_loop ::
  "kernel \<Rightarrow> dataset \<Rightarrow> cluster list \<Rightarrow> (py_error + cluster list) option" where
  "clustering_loop K ds clusters =
     (if ds \<noteq> [] then
        (case gift_wrapping ds of
           None \<Rightarrow> None
         | Some (Inl e) \<Rightarrow> Some (Inl e)
         | Some (Inr w) \<Rightarrow>
             (case partition_dataset K (wr_faces w) (wr_vertices w) ds of
                Inl e \<Rightarrow> Some (Inl e)
              | Inr (vertices, points, ds1) \<Rightarrow>
                  (case calculate_volume K (wr_faces w) of
                     Inl e \<Rightarrow> Some (Inl e)
                   | Inr volume \<Rightarrow>
                       clustering_loop K ds1
                         (clusters @ [\<lparr>cl_vertices = vertices, cl_points = points,
                                       cl_size = length vertices + length points,
                                       cl_volume = volume\<rparr>]))))
      else Some (Inr clusters))"

definition clustering :: "kernel \<Rightarrow> dataset \<Rightarrow> (py_error + cluster list) option" where
  "clustering K ds = clustering_loop K ds []"

section \<open>Inputs and relations the theorems are stated on\<close>

text \<open>
  Scenario E1 of the specification: three points of one label and three of another, in
  the plane (label A is 0, label B is 1).
\<close>

definition E1 :: dataset where
  "E1 = [\<lparr>coordinate = [0, 0], label = 0\<rparr>, \<lparr>coordinate = [1, 0], label = 0\<rparr>,
         \<lparr>coordinate = [0, 1], label = 0\<rparr>, \<lparr>coordinate = [10, 10], label = 1\<rparr>,
         \<lparr>coordinate = [11, 10], label = 1\<rparr>, \<lparr>coordinate = [10, 11], label = 1\<rparr>]"

text \<open>A dataset of one label only, and one of two labels.\<close>

definition same_label_points :: dataset where
  "same_label_points =
     [\<lparr>coordinate = [0, 0], label = 0\<rparr>, \<lparr>coordinate = [1, 0], label = 0\<rparr>,
      \<lparr>coordinate = [0, 1], label = 0\<rparr>]"

definition mixed_points :: dataset where
  "mixed_points =
     [\<lparr>coordinate = [0, 0], label = 0\<rparr>, \<lparr>coordinate = [1, 0], label = 0\<rparr>,
      \<lparr>coordinate = [0, 1], label = 1\<rparr>, \<lparr>coordinate = [0, - 1], label = 1\<rparr>,
      \<lparr>coordinate = [3, 3], label = 0\<rparr>]"

text \<open>
  Two replies are related when they are equal or when one is \<open>'opposite inside'\<close> and
  the other \<open>'opposite outside'\<close>.
\<close>

definition opposite_swap :: "string \<Rightarrow> string \<Rightarrow> bool" where
  "opposite_swap v w =
     (v = w \<or> (v = ''opposite inside'' \<and> w = ''opposite outside'')
            \<or> (v = ''opposite outside'' \<and> w = ''opposite inside''))"

section \<open>Running the model on concrete inputs\<close>

lemmas run_simps =
  check_inside_def form_face_def signed_volume_def squared_area_def np_sub_def slogdet_def
  exact_kernel_def del_col_def np_matmul_def np_transpose_def
  upt_rec[of 0] upt_rec[of 1] upt_rec[of 2] numeral_2_eq_2

section \<open>Properties of the hull predicate\<close>

lemma check_inside_hull_not_False: "check_inside_hull K faces pivot \<noteq> Inr False"
  by (induction faces) (auto simp: tuple_truthy_def split: sum.splits)

text \<open>
  Claim C2: \<open>check_inside_hull(hull, pivot)\<close> is true if and only if every facet of the
  hull reports the pivot inside. The code tests the truth value of the whole tuple that
  \<open>check_inside\<close> returns, which is always true. For the hull of the single facet
  \<open>((0,0), (1,0))\<close> and the pivot \<open>(0,-1)\<close> the facet reports the pivot outside (the
  signed volume is negative), and \<open>check_inside_hull\<close> returns true all the same.
\<close>

theorem check_inside_hull_ignores_facet:
  "check_inside exact_kernel (Some [[0, 0], [1, 0]]) (Some [0, - 1]) None None
     = Inr (False, [[0, 0], [0, - 1]], MinusInf)
   \<and> check_inside_hull exact_kernel [[[0, 0], [1, 0]]] [0, - 1] = Inr True"
  by (simp add: run_simps tuple_truthy_def)

section \<open>Properties of the pivot selector\<close>

text \<open>
  Claim C6: on a dataset that holds a point of the given label, the selector scans
  without an out-of-range access, also when no point has another label. On the three
  points of label 0, the second \<open>while\<close> loop runs to the end of the dataset and
  \<open>dataset[index]\<close> raises IndexError before the first candidate is yielded, whatever
  the numeric kernel and the replies.
\<close>

theorem pivot_on_edge_same_label_raises:
  "pivot_on_edge K same_label_points [[0, 0]] 0 verdicts = ([], Raised IndexError)"
  by (simp add: pivot_on_edge_def same_label_points_def skip_other.simps skip_same.simps
      form_face_def squared_area_def np_sub_def np_matmul_def np_transpose_def slogdet_def
      upt_rec[of 0] upt_rec[of 1] numeral_2_eq_2 Let_def split: prod.splits)

lemma opposite_swap_homogeneous:
  "opposite_swap v w \<Longrightarrow> (v = ''homogeneous'') = (w = ''homogeneous'')"
  by (auto simp: opposite_swap_def)

lemma scan_opp_irrelevant:
  "list_all2 opposite_swap vs ws \<Longrightarrow>
   scan K edge lbl ps homo opp found vs = scan K edge lbl ps homo opp' found ws"
proof (induction ps arbitrary: homo opp opp' found vs ws)
  case Nil
  then show ?case by simp
next
  case (Cons p ps)
  show ?case
  proof (cases "check_inside K (Some (face_of homo)) (Some (coordinate p)) (Some edge)
                  (Some (area_of homo))")
    case (Inl e)
    then show ?thesis by simp
  next
    case (Inr r)
    obtain inside face2 area2 where r: "r = (inside, face2, area2)" by (cases r) auto
    let ?current = "\<lparr>pivot_of = coordinate p, face_of = face2, area_of = area2\<rparr>"
    show ?thesis
    proof (cases "if label p = lbl then \<not> inside else inside")
      case False
      then show ?thesis using Inr r Cons.IH[OF Cons.prems] by (simp add: Let_def)
    next
      case updated: True
      show ?thesis
      proof (cases vs)
        case Nil
        then have "ws = []" using Cons.prems by simp
        then show ?thesis using Nil Inr r updated by (simp add: Let_def)
      next
        case (Cons v vs')
        then obtain w ws' where ws: "ws = w # ws'" and vw: "opposite_swap v w"
          and rest: "list_all2 opposite_swap vs' ws'"
          using Cons.prems by (auto simp: list_all2_Cons1)
        have hom: "(v = ''homogeneous'') = (w = ''homogeneous'')"
          using vw by (rule opposite_swap_homogeneous)
        have ih: "scan K edge lbl ps h o1 b vs' = scan K edge lbl ps h o2 b ws'" for h o1 o2 b
          by (rule Cons.IH[OF rest])
        show ?thesis
        proof (cases "v = ''homogeneous''")
          case True
          then have w: "w = ''homogeneous''" using hom by simp
          show ?thesis
            using Inr r updated Cons ws True w ih[of ?current opp True opp']
            by (simp add: Let_def)
        next
          case False
          then have w: "w \<noteq> ''homogeneous''" using hom by simp
          show ?thesis
            using Inr r updated Cons ws False w
              ih[of homo opp found opp'] ih[of homo ?current found opp']
              ih[of homo opp found ?current] ih[of homo ?current found ?current]
            by (simp add: Let_def)
        qed
      qed
    qed
  qed
qed

text \<open>
  Claim C10: two runs of \<open>pivot_on_edge\<close> on the same dataset, edge and label, driven
  by reply sequences that differ only in exchanging \<open>'opposite inside'\<close> and
  \<open>'opposite outside'\<close>, yield the same candidates and end the same way (the same
  final pair, the same exception, or the same suspension): the incumbent \<open>opp\<close> is
  written but never read.
\<close>

theorem pivot_on_edge_opp_unobservable:
  assumes "list_all2 opposite_swap vs ws"
  shows "pivot_on_edge K ds edge lbl vs = pivot_on_edge K ds edge lbl ws"
proof (cases vs)
  case Nil
  then have "ws = []" using assms by simp
  then show ?thesis using Nil by simp
next
  case (Cons v vs')
  then obtain w ws' where ws: "ws = w # ws'" and vw: "opposite_swap v w"
    and rest: "list_all2 opposite_swap vs' ws'"
    using assms by (auto simp: list_all2_Cons1)
  have hom: "(v = ''homogeneous'') = (w = ''homogeneous'')"
    using vw by (rule opposite_swap_homogeneous)
  have eq: "scan K edge lbl ds h c b vs' = scan K edge lbl ds h c b ws'" for h c b
    by (rule scan_opp_irrelevant[OF rest])
  show ?thesis
    unfolding pivot_on_edge_def Let_def Cons ws list.case hom eq ..
qed

theorem pivot_on_edge_opp_unobservable_witness:
  "list_all2 opposite_swap [''homogeneous'', ''opposite inside'', ''opposite outside'']
                           [''homogeneous'', ''opposite outside'', ''opposite inside'']
   \<and> pivot_on_edge exact_kernel mixed_points [[0, 0]] 0
        [''homogeneous'', ''opposite inside'', ''opposite outside'']
      = pivot_on_edge exact_kernel mixed_points [[0, 0]] 0
        [''homogeneous'', ''opposite outside'', ''opposite inside'']
   \<and> pivot_on_edge exact_kernel mixed_points [[0, 0]] 0
        [''homogeneous'', ''opposite outside'', ''opposite inside'']
      = ([Candidate [0, 0] 0, Candidate [0, 1] 0, Candidate [0, - 1] 0], Finished [0, 0] True)"
proof -
  have rel: "list_all2 opposite_swap [''homogeneous'', ''opposite inside'', ''opposite outside'']
                           [''homogeneous'', ''opposite outside'', ''opposite inside'']"
    by (simp add: opposite_swap_def)
  have run: "pivot_on_edge exact_kernel mixed_points [[0, 0]] 0
        [''homogeneous'', ''opposite outside'', ''opposite inside'']
      = ([Candidate [0, 0] 0, Candidate [0, 1] 0, Candidate [0, - 1] 0], Finished [0, 0] True)"
    by (simp add: pivot_on_edge_def mixed_points_def skip_other.simps skip_same.simps
        run_simps Let_def)
  show ?thesis
    using rel pivot_on_edge_opp_unobservable[OF rel, of exact_kernel mixed_points "[[0, 0]]" 0] run
    by simp
qed

section \<open>Properties of seed selection, the driver and the clustering loop\<close>

lemma qsort_pass_raises: "\<exists>e. qsort_pass data target lhs rhs position = Inl e"
  by (auto simp: qsort_pass_def Let_def split: sum.splits prod.splits)

lemma qsort_loop_raises:
  "position \<noteq> target \<Longrightarrow> \<exists>e. qsort_loop data target lhs rhs position = Some (Inl e)"
  using qsort_pass_raises[of data target lhs rhs position]
  by (subst qsort_loop.simps) auto

lemma qsort_loop_done: "qsort_loop data target lhs rhs target = Some (Inr (data, target))"
  by (subst qsort_loop.simps) simp

lemma qsort_pass_IndexError:
  assumes "position < target" "int (length data) \<le> rhs"
  shows "qsort_pass data target lhs rhs position = Inl IndexError"
  using assms by (auto simp: qsort_pass_def py_index_def py_position_def Let_def)

lemma qsort_partition_raises:
  assumes "target \<noteq> - 1"
  shows "\<exists>e. qsort_partition ds target lhs rhs = Some (Inl e)"
proof (cases ds)
  case Nil
  then show ?thesis by (simp add: qsort_partition_def)
next
  case (Cons p ps)
  have neq: "(- 1 :: int) \<noteq> target" using assms by simp
  let ?lhs0 = "case lhs of None \<Rightarrow> 0 | Some l \<Rightarrow> if l \<noteq> 0 then l else 0"
  let ?rhs0 = "(case rhs of None \<Rightarrow> int (length (p # ps))
                | Some r \<Rightarrow> if r \<noteq> 0 then r else int (length (p # ps))) - 1"
  let ?data = "map coordinate (filter (\<lambda>element. label element = label p)
                 (py_slice (p # ps) ?lhs0 ?rhs0))"
  obtain e where "qsort_loop ?data target ?lhs0 ?rhs0 (- 1) = Some (Inl e)"
    using qsort_loop_raises[OF neq] by blast
  then show ?thesis
    by (simp add: qsort_partition_def Let_def Cons)
qed

lemma length_filtered_slice:
  "length (map f (filter P (py_slice (p # ps) 0 (int (length ps))))) \<le> length ps"
proof -
  have "length (filter P (py_slice (p # ps) 0 (int (length ps))))
          \<le> length (py_slice (p # ps) 0 (int (length ps)))"
    by (rule length_filter_le)
  also have "\<dots> \<le> length ps" by (simp add: py_slice_def Let_def)
  finally show ?thesis by simp
qed

lemma qsort_partition_IndexError:
  assumes "0 \<le> target" "ds \<noteq> []"
  shows "qsort_partition ds target (Some 0) None = Some (Inl IndexError)"
proof -
  obtain p ps where ds: "ds = p # ps" using assms(2) by (cases ds) auto
  let ?data = "map coordinate (filter (\<lambda>element. label element = label p)
                 (py_slice (p # ps) 0 (int (length ps))))"
  have len: "int (length ?data) \<le> int (length ps)"
    using length_filtered_slice[of coordinate _ p ps] by simp
  have "qsort_pass ?data target 0 (int (length ps)) (- 1) = Inl IndexError"
    using assms(1) len by (intro qsort_pass_IndexError) auto
  then have "qsort_loop ?data target 0 (int (length ps)) (- 1) = Some (Inl IndexError)"
    using assms(1) by (subst qsort_loop.simps) auto
  then show ?thesis by (simp add: qsort_partition_def ds Let_def)
qed

lemma initialize_hull_raises: "\<exists>e. initialize_hull ds = Some (Inl e)"
proof (cases ds)
  case Nil
  then show ?thesis by (simp add: initialize_hull_def)
next
  case (Cons p ps)
  show ?thesis
  proof (cases "coordinate p = []")
    case True
    then show ?thesis using Cons
      by (simp add: initialize_hull_def qsort_partition_def Let_def qsort_loop_done)
  next
    case False
    then have "int (length (coordinate p)) - 1 \<noteq> - 1" by simp
    from qsort_partition_raises[OF this, of ds "Some 0" None] show ?thesis using Cons
      by (auto simp: initialize_hull_def Let_def)
  qed
qed

lemma initialize_hull_IndexError:
  assumes "ds \<noteq> []" "coordinate (hd ds) \<noteq> []"
  shows "initialize_hull ds = Some (Inl IndexError)"
proof -
  obtain p ps where ds: "ds = p # ps" using assms(1) by (cases ds) auto
  have "0 \<le> int (length (coordinate p)) - 1" using assms(2) ds by (cases "coordinate p") auto
  from qsort_partition_IndexError[OF this assms(1)] show ?thesis
    by (simp add: initialize_hull_def ds Let_def)
qed

lemma gift_wrapping_raises: "\<exists>e. gift_wrapping ds = Some (Inl e)"
  using initialize_hull_raises[of ds] by (auto simp: gift_wrapping_def)

lemma gift_wrapping_IndexError:
  assumes "ds \<noteq> []" "coordinate (hd ds) \<noteq> []"
  shows "gift_wrapping ds = Some (Inl IndexError)"
  using initialize_hull_IndexError[OF assms] by (simp add: gift_wrapping_def)

lemma clustering_raises: "ds \<noteq> [] \<Longrightarrow> \<exists>e. clustering K ds = Some (Inl e)"
  using gift_wrapping_raises[of ds] unfolding clustering_def
  by (subst clustering_loop.simps) auto

lemma clustering_IndexError:
  assumes "ds \<noteq> []" "coordinate (hd ds) \<noteq> []"
  shows "clustering K ds = Some (Inl IndexError)"
  using gift_wrapping_IndexError[OF assms] assms(1) unfolding clustering_def
  by (subst clustering_loop.simps) auto

lemma clustering_empty: "clustering K [] = Some (Inr [])"
  unfolding clustering_def by (subst clustering_loop.simps) simp

text \<open>
  Claim C5: for a dataset whose first label is carried by at least d - 1 points, seed
  selection returns the label of the first point and the d - 1 smallest coordinates of
  that label. On scenario E1 (d = 2, three points of the first label) the code returns
  nothing: \<open>qsort_partition\<close> keeps \<open>rhs = len(data) - 1\<close> of the whole dataset as
  an index into the filtered list, which is shorter, and \<open>data[rhs]\<close> raises
  IndexError.
\<close>

theorem initialize_hull_E1_raises: "initialize_hull E1 = Some (Inl IndexError)"
  by (rule initialize_hull_IndexError) (simp_all add: E1_def)


text \<open>
  Claim C3: every round of the clustering loop sends each point to exactly one of the
  cluster's vertices, the cluster's points and the next working dataset, and the
  clusters emitted cover the input. On scenario E1 \<open>clustering\<close> raises IndexError in
  its first round and emits no cluster. The partition of a round, run on the facet
  \<open>((0,0), (1,0))\<close> with both its vertices used, sends the point \<open>(0,1)\<close> both to
  \<open>points\<close> and to the next working dataset.
\<close>

theorem clustering_E1_covers_nothing:
  "clustering K E1 = Some (Inl IndexError)
   \<and> partition_dataset exact_kernel [[[0, 0], [1, 0]]]
        (map_of [([0, 0], True), ([1, 0], True)]) same_label_points
      = Inr ([[0, 0], [1, 0]], [[0, 1]], [\<lparr>coordinate = [0, 1], label = 0\<rparr>])"
proof -
  have "clustering K E1 = Some (Inl IndexError)"
    by (rule clustering_IndexError) (simp_all add: E1_def)
  moreover have "partition_dataset exact_kernel [[[0, 0], [1, 0]]]
        (map_of [([0, 0], True), ([1, 0], True)]) same_label_points
      = Inr ([[0, 0], [1, 0]], [[0, 1]], [\<lparr>coordinate = [0, 1], label = 0\<rparr>])"
    by (auto simp: same_label_points_def run_simps tuple_truthy_def Let_def)
  ultimately show ?thesis by simp
qed


section \<open>Cardinality of the geometry primitives\<close>

lemma row_diffs_same_length:
  "list_all (\<lambda>v. length v = length r) vs \<Longrightarrow>
   row_diffs r vs = Inr (map (\<lambda>x. map2 (\<lambda>a b. a - b) x r) vs)"
  by (induction vs) (auto simp: np_sub_def)

lemma np_matrix_same_length:
  "rows \<noteq> [] \<Longrightarrow> list_all (\<lambda>v. length v = d) rows \<Longrightarrow>
   np_matrix rows = Inr \<lparr>nrows = length rows, ncols = d, entries = rows\<rparr>"
  by (cases rows) (auto simp: list_all_iff)


lemma signed_volume_shape:
  assumes "list_all (\<lambda>v. length v = d) (r # vs)" "vs \<noteq> []"
  shows "signed_volume K (r # vs) =
           (if length vs \<noteq> d then Inl LinAlgError
            else Inr (K (map (\<lambda>x. map2 (\<lambda>a b. a - b) x r) vs)))"
proof -
  let ?rows = "map (\<lambda>x. map2 (\<lambda>a b. a - b) x r) vs"
  have rd: "row_diffs r vs = Inr ?rows"
    using assms(1) by (intro row_diffs_same_length) (auto simp: list_all_iff)
  have "?rows \<noteq> []" using assms(2) by simp
  moreover have "list_all (\<lambda>v. length v = d) ?rows"
    using assms(1) by (auto simp: list_all_iff)
  ultimately have "np_matrix ?rows = Inr \<lparr>nrows = length ?rows, ncols = d, entries = ?rows\<rparr>"
    by (rule np_matrix_same_length)
  then show ?thesis using rd by (simp add: signed_volume_def slogdet_def)
qed

lemma squared_area_returns:
  assumes "list_all (\<lambda>v. length v = d) (r # vs)" "vs \<noteq> []"
  shows "\<exists>a. squared_area K (r # vs) = Inr a"
proof -
  let ?rows = "map (\<lambda>x. map2 (\<lambda>a b. a - b) x r) vs"
  have rd: "row_diffs r vs = Inr ?rows"
    using assms(1) by (intro row_diffs_same_length) (auto simp: list_all_iff)
  have "?rows \<noteq> []" using assms(2) by simp
  moreover have "list_all (\<lambda>v. length v = d) ?rows"
    using assms(1) by (auto simp: list_all_iff)
  ultimately have "np_matrix ?rows = Inr \<lparr>nrows = length ?rows, ncols = d, entries = ?rows\<rparr>"
    by (rule np_matrix_same_length)
  then show ?thesis using rd
    by (simp add: squared_area_def slogdet_def np_matmul_def np_transpose_def split: prod.splits)
qed

lemma signed_volume_returns:
  assumes "list_all (\<lambda>v. length v = d) vs" "0 < d" "length vs = d + 1"
  shows "\<exists>sign logvolume. signed_volume K vs = Inr (sign, logvolume)"
proof -
  obtain r rest where vs: "vs = r # rest" using assms(3) by (cases vs) auto
  then have ne: "rest \<noteq> []" and len: "length rest = d" using assms(2,3) by auto
  have wf: "list_all (\<lambda>v. length v = d) (r # rest)" using assms(1) vs by simp
  show ?thesis
    using signed_volume_shape[OF wf ne, of K] len vs by (cases "K (map (\<lambda>x. map2 (\<lambda>a b. a - b) x r) rest)") auto
qed

lemma squared_area_returns2:
  assumes "list_all (\<lambda>v. length v = d) vs" "2 \<le> length vs"
  shows "\<exists>a. squared_area K vs = Inr a"
proof -
  obtain r rest where vs: "vs = r # rest" using assms(2) by (cases vs) auto
  then have ne: "rest \<noteq> []" using assms(2) by auto
  have wf: "list_all (\<lambda>v. length v = d) (r # rest)" using assms(1) vs by simp
  show ?thesis using squared_area_returns[OF wf ne, of K] vs by simp
qed




section \<open>The decision of the facet predicate\<close>

text \<open>
  Claim C7, as stated: for every face, pivot, edge and area, \<open>check_inside\<close> reports
  the pivot outside exactly when the log-volume is close to zero and the new area
  exceeds \<open>area\<close>, or the sign is negative. It fails for the area \<open>0.0\<close>, which
  \<open>area or squared_area(face)\<close> replaces: with the face \<open>((0,0), (1,0))\<close>, the pivot
  \<open>(0,1)\<close>, the edge \<open>((0,0), (1,0))\<close> and the area \<open>0.0\<close>, the sign is 1, the
  log-volume is 0, the new area is 0 and does not exceed the area given, and yet the
  pivot is reported outside (the new area exceeds \<open>squared_area(face) = -inf\<close>).
\<close>

theorem check_inside_zero_area_replaced:
  "check_inside exact_kernel (Some [[0, 0], [1, 0]]) (Some [0, 1]) (Some [[0, 0], [1, 0]])
       (Some (LogVal 0))
     = Inr (False, [[0, 0], [1, 0], [0, 1]], LogVal 0)
   \<and> signed_volume exact_kernel (form_face [[0, 0], [1, 0]] [0, 1]) = Inr (1, LogVal 0)
   \<and> squared_area exact_kernel (form_face [[0, 0], [1, 0]] [0, 1]) = Inr (LogVal 0)
   \<and> \<not> ((isclose_zero (LogVal 0) \<and> logdet_less (LogVal 0) (LogVal 0)) \<or> (1 :: real) < 0)"
  by (simp add: run_simps)

text \<open>
  Claim C7, amended: let d \<ge> 2, let the face have d vertices, and let the pivot, the
  vertices of the face and those of the effective edge have dimension d, where the
  effective edge is the argument \<open>edge\<close>, or \<open>face[:-1]\<close> when that is \<open>None\<close> or
  empty, and the effective area is the argument \<open>area\<close>, or \<open>squared_area(face)\<close>
  when that is \<open>None\<close> or zero. Then the primitives return, and \<open>check_inside\<close>
  returns (false, face', area') exactly when the log-volume of the face with the pivot
  is close to zero and area' exceeds the effective area, or the sign is negative, and
  (true, face', area') otherwise; face' is the effective edge with the pivot and area'
  its squared area.
\<close>

theorem check_inside_decision:
  assumes d: "2 \<le> d" and lf: "length f = d"
    and wf: "list_all (\<lambda>v. length v = d) (p # f)"
    and we: "list_all (\<lambda>v. length v = d) edge1"
    and e1: "edge1 = (case edge of None \<Rightarrow> butlast f | Some e \<Rightarrow> if e = [] then butlast f else e)"
  shows "\<exists>sign logvolume a0 area2.
           signed_volume K (form_face f p) = Inr (sign, logvolume)
         \<and> squared_area K f = Inr a0
         \<and> squared_area K (form_face edge1 p) = Inr area2
         \<and> check_inside K (Some f) (Some p) edge area =
             Inr (\<not> ((isclose_zero logvolume
                        \<and> logdet_less (case area of None \<Rightarrow> a0
                                         | Some a \<Rightarrow> if a = LogVal 0 then a0 else a) area2)
                       \<or> sign < 0),
                  form_face edge1 p, area2)"
proof -
  have "list_all (\<lambda>v. length v = d) (form_face f p)" using wf by (simp add: form_face_def)
  moreover have "length (form_face f p) = d + 1" using lf by (simp add: form_face_def)
  ultimately obtain sign logvolume where sv: "signed_volume K (form_face f p) = Inr (sign, logvolume)"
    using signed_volume_returns[of d "form_face f p" K] d by auto
  have "list_all (\<lambda>v. length v = d) f" using wf by simp
  then obtain a0 where a0: "squared_area K f = Inr a0"
    using squared_area_returns2[of d f K] d lf by auto
  have ne: "edge1 \<noteq> []" using e1 d lf by (cases f rule: rev_cases) (auto split: option.splits)
  have "list_all (\<lambda>v. length v = d) (form_face edge1 p)" using we wf by (simp add: form_face_def)
  moreover have "2 \<le> length (form_face edge1 p)" using ne by (cases edge1) (auto simp: form_face_def)
  ultimately obtain area2 where a2: "squared_area K (form_face edge1 p) = Inr area2"
    using squared_area_returns2[of d "form_face edge1 p" K] by auto
  have tr: "float_truthy a = (a \<noteq> LogVal 0)" for a by (cases a) auto
  have "check_inside K (Some f) (Some p) edge area =
             Inr (\<not> ((isclose_zero logvolume
                        \<and> logdet_less (case area of None \<Rightarrow> a0
                                         | Some a \<Rightarrow> if a = LogVal 0 then a0 else a) area2)
                       \<or> sign < 0),
                  form_face edge1 p, area2)"
    using sv a0 a2 e1 by (auto simp: check_inside_def Let_def tr split: option.splits)
  then show ?thesis using sv a0 a2 by blast
qed

theorem check_inside_decision_witness:
  "check_inside exact_kernel (Some [[0, 0], [1, 0]]) (Some [0, - 1]) (Some [[0, 0]]) (Some MinusInf)
     = Inr (False, [[0, 0], [0, - 1]], MinusInf)
   \<and> signed_volume exact_kernel (form_face [[0, 0], [1, 0]] [0, - 1]) = Inr (- 1, LogVal 0)"
proof -
  have sv: "signed_volume exact_kernel (form_face [[0, 0], [1, 0]] [0, - 1]) = Inr (- 1, LogVal 0)"
    by (simp add: run_simps)
  have sa: "squared_area exact_kernel [[0, 0], [0, - 1]] = Inr MinusInf"
    by (simp add: run_simps)
  show ?thesis
    using check_inside_decision[of 2 "[[0, 0], [1, 0]]" "[0, - 1]" "[[0, 0]]" "Some [[0, 0]]"
        exact_kernel "Some MinusInf"] sv sa
    by (auto simp: form_face_def)
qed

end
